theory Spec2Isabelle
  imports Main
begin

section \<open>Python values used by scrolling\_text.py\<close>

text \<open>
  A Python \<open>str\<close> is a sequence of Unicode code points and \<open>len\<close> counts code points,
  so a string is modelled as a list of code points (natural numbers). The logo uses
  box-drawing characters beyond ASCII (U+2588 = 9608, U+2550 = 9552, U+2551 = 9553,
  U+2554 = 9556, U+2557 = 9559, U+255A = 9562, U+255D = 9565), each of which is one
  element of the list. Python integers are unbounded: \<open>int\<close>.
\<close>

type_synonym pystr = "nat list"

definition str :: "string \<Rightarrow> pystr" where
  "str s = map of_char s"

text \<open>An ANSI escape sequence: the character \<open>\033\<close> (27) followed by ASCII text.\<close>

definition esc :: "string \<Rightarrow> pystr" where
  "esc s = 27 # str s"

text \<open>The exceptions that the program can meet.\<close>

datatype exn = KeyboardInterrupt | OSError | IndexError | OtherException

text \<open>\<open>s * n\<close>: repetition; a count below one gives the empty string.\<close>

definition str_mul :: "pystr \<Rightarrow> int \<Rightarrow> pystr" where
  "str_mul s n = concat (replicate (nat n) s)"

text \<open>\<open>xs[i]\<close>: a negative index counts from the end; out of range raises IndexError.\<close>

definition py_index :: "'a list \<Rightarrow> int \<Rightarrow> exn + 'a" where
  "py_index xs i =
     (let n = int (length xs); j = (if i < 0 then i + n else i)
      in if 0 \<le> j \<and> j < n then Inr (xs ! nat j) else Inl IndexError)"

text \<open>
  \<open>s[a:b]\<close>: each bound that is given is adjusted as CPython does (a negative bound
  counts from the end, then both are clamped to \<open>[0, len s]\<close>); a bound that is
  omitted is \<open>None\<close>. An empty range gives the empty string; slicing never raises.
\<close>

definition adjust_index :: "int \<Rightarrow> int \<Rightarrow> int" where
  "adjust_index n i =
     (if i < 0 then (if i + n < 0 then 0 else i + n) else if n \<le> i then n else i)"

definition py_slice :: "'a list \<Rightarrow> int option \<Rightarrow> int option \<Rightarrow> 'a list" where
  "py_slice s a b =
     (let n = int (length s);
          start = (case a of None \<Rightarrow> 0 | Some i \<Rightarrow> adjust_index n i);
          stop = (case b of None \<Rightarrow> n | Some j \<Rightarrow> adjust_index n j)
      in take (nat (stop - start)) (drop (nat start) s))"

text \<open>\<open>s.ljust(w)\<close>: pads with spaces on the right up to \<open>w\<close>; never shortens \<open>s\<close>.\<close>

definition ljust :: "pystr \<Rightarrow> int \<Rightarrow> pystr" where
  "ljust s w = s @ replicate (nat (w - int (length s))) 32"

section \<open>Demo setup\<close>

definition logo :: "pystr list" where
  "logo =
   [[32, 32, 9608, 9608, 9608, 9608, 9608, 9608, 9559, 32, 9608, 9608, 9608, 9608, 9608,
     9608, 9608, 9559, 9608, 9608, 9608, 9559, 32, 32, 32, 9608, 9608, 9608, 9559, 9608,
     9608, 9559, 9608, 9608, 9608, 9559, 32, 32, 32, 9608, 9608, 9559, 32],
    [32, 9608, 9608, 9556, 9552, 9552, 9552, 9552, 9565, 32, 9608, 9608, 9556, 9552, 9552,
     9552, 9552, 9565, 9608, 9608, 9608, 9608, 9559, 32, 9608, 9608, 9608, 9608, 9553, 9608,
     9608, 9553, 9608, 9608, 9608, 9608, 9559, 32, 32, 9608, 9608, 9553, 32],
    [32, 9608, 9608, 9553, 32, 32, 9608, 9608, 9608, 9559, 9608, 9608, 9608, 9608, 9608,
     9559, 32, 32, 9608, 9608, 9556, 9608, 9608, 9608, 9608, 9556, 9608, 9608, 9553, 9608,
     9608, 9553, 9608, 9608, 9556, 9608, 9608, 9559, 32, 9608, 9608, 9553, 32],
    [32, 9608, 9608, 9553, 32, 32, 32, 9608, 9608, 9553, 9608, 9608, 9556, 9552, 9552,
     9565, 32, 32, 9608, 9608, 9553, 9562, 9608, 9608, 9556, 9565, 9608, 9608, 9553, 9608,
     9608, 9553, 9608, 9608, 9553, 9562, 9608, 9608, 9559, 9608, 9608, 9553, 32],
    [32, 9562, 9608, 9608, 9608, 9608, 9608, 9608, 9556, 9565, 9608, 9608, 9608, 9608, 9608,
     9608, 9608, 9559, 9608, 9608, 9553, 32, 9562, 9552, 9565, 32, 9608, 9608, 9553, 9608,
     9608, 9553, 9608, 9608, 9553, 32, 9562, 9608, 9608, 9608, 9608, 9553, 32],
    [32, 32, 9562, 9552, 9552, 9552, 9552, 9552, 9565, 32, 9562, 9552, 9552, 9552, 9552,
     9552, 9552, 9565, 9562, 9552, 9565, 32, 32, 32, 32, 32, 9562, 9552, 9565, 9562,
     9552, 9565, 9562, 9552, 9565, 32, 32, 9562, 9552, 9552, 9552, 9565, 32]]"

definition logo_width :: int where
  "logo_width = int (length (logo ! 0))"

definition logo_height :: int where
  "logo_height = int (length logo)"

definition scrolltext :: pystr where
  "scrolltext =
     str_mul (str ''   *** GREETINGS FROM GEMINI! THIS IS A PYTHON ASCII DEMO ''
            @ str ''INSPIRED BY THE CLASSIC AMIGA SCENE OF THE LATE 80S AND EARLY 90S. ''
            @ str ''KEEP THE OLD SCHOOL SPIRIT ALIVE! ***'') 3"

text \<open>The dictionary of ANSI codes, and the lookup of a key that the program writes out.\<close>

definition colors :: "string \<rightharpoonup> pystr" where
  "colors = map_of
     [(''reset'', esc ''[0m''),
      (''bold'', esc ''[1m''),
      (''red'', esc ''[91m''),
      (''green'', esc ''[92m''),
      (''yellow'', esc ''[93m''),
      (''blue'', esc ''[94m''),
      (''magenta'', esc ''[95m''),
      (''cyan'', esc ''[96m'')]"

definition color_cycle :: "pystr list" where
  "color_cycle = [the (colors ''cyan''), the (colors ''magenta''), the (colors ''yellow''),
                  the (colors ''green''), the (colors ''red'')]"



definition cursor_home :: pystr where
  "cursor_home = esc ''[H''"

definition newline :: pystr where
  "newline = [10]"


section \<open>One frame\<close>

text \<open>The values computed for a frame, each as a function of the terminal size.\<close>

definition top_padding :: "int \<Rightarrow> int" where
  "top_padding term_height = (term_height - logo_height - 2) div 2"

definition left_padding_str :: "int \<Rightarrow> pystr" where
  "left_padding_str term_width = str_mul (str '' '') ((term_width - logo_width) div 2)"

definition fill_lines :: "int \<Rightarrow> int" where
  "fill_lines term_height = term_height - top_padding term_height - logo_height - 1"

definition scroller_view :: "int \<Rightarrow> int \<Rightarrow> pystr" where
  "scroller_view term_width scroll_pos =
     py_slice (scrolltext @ py_slice scrolltext None (Some term_width))
       (Some scroll_pos) (Some (scroll_pos + term_width))"

text \<open>
  The frame buffer, built in the order of the source: cursor home, the top padding when
  it is positive, one coloured line per logo line, the fill lines when their number is
  positive, the styled scroller. The only operation that can raise is the lookup of
  the current colour.
\<close>

fun render_frame :: "int \<times> int \<Rightarrow> int \<Rightarrow> int \<Rightarrow> exn + pystr" where
  "render_frame (term_width, term_height) color_index scroll_pos =
       (let buffer = [];
            buffer = buffer @ cursor_home;
            buffer = (if top_padding term_height > 0
                      then buffer @ str_mul newline (top_padding term_height) else buffer)
        in case py_index color_cycle color_index of
             Inl e \<Rightarrow> Inl e
           | Inr current_color \<Rightarrow>
               let buffer = fold (\<lambda>i b. b @ left_padding_str term_width @ current_color
                                          @ logo ! i @ the (colors ''reset'') @ newline)
                              [0..<nat logo_height] buffer;
                   buffer = (if fill_lines term_height > 0
                             then buffer @ str_mul newline (fill_lines term_height)
                             else buffer)
               in Inr (buffer @ the (colors ''bold'') @ the (colors ''yellow'')
                         @ ljust (scroller_view term_width scroll_pos) term_width
                         @ the (colors ''reset'')))"

section \<open>The animation state and the main loop\<close>

record anim_state =
  color_index :: int
  scroll_pos :: int

definition init_state :: anim_state where
  "init_state = \<lparr>color_index = 0, scroll_pos = 0\<rparr>"

text \<open>The state update at the end of a frame.\<close>

definition tick :: "anim_state \<Rightarrow> anim_state" where
  "tick s = \<lparr>color_index = (color_index s + 1) mod int (length color_cycle),
             scroll_pos = (scroll_pos s + 1) mod int (length scrolltext)\<rparr>"

text \<open>
  What the program does to the terminal, as a trace of calls: \<open>sys.stdout.write\<close>,
  \<open>sys.stdout.flush\<close>, \<open>print\<close> and \<open>time.sleep\<close>. The environment decides what
  each call does: it returns, or it raises (a KeyboardInterrupt that arrives while the
  program computes is raised at the next call, which leaves the same trace). A call
  that raises leaves no event.
\<close>

datatype event = Write pystr | Flush | Print pystr | Sleep

datatype 'a reply = Returns 'a | Raises exn

record frame_env =
  size_query :: "(int \<times> int) reply"
  write_reply :: "unit reply"
  flush_reply :: "unit reply"
  sleep_reply :: "unit reply"

text \<open>The inner \<open>try\<close>: an OSError of the size query gives the size 80 x 24.\<close>

definition get_size :: "(int \<times> int) reply \<Rightarrow> exn + (int \<times> int)" where
  "get_size r =
     (case r of
        Returns sz \<Rightarrow> Inr sz
      | Raises e \<Rightarrow> (if e = OSError then Inr (80, 24) else Inl e))"

text \<open>One iteration of \<open>while True\<close>: the events it leaves, and the exception or the next state.\<close>

definition frame :: "anim_state \<Rightarrow> frame_env \<Rightarrow> event list \<times> (exn + anim_state)" where
  "frame s fe =
     (case get_size (size_query fe) of
        Inl e \<Rightarrow> ([], Inl e)
      | Inr sz \<Rightarrow>
         (case render_frame sz (color_index s) (scroll_pos s) of
            Inl e \<Rightarrow> ([], Inl e)
          | Inr buffer \<Rightarrow>
             (case write_reply fe of
                Raises e \<Rightarrow> ([], Inl e)
              | Returns _ \<Rightarrow>
                 (case flush_reply fe of
                    Raises e \<Rightarrow> ([Write buffer], Inl e)
                  | Returns _ \<Rightarrow>
                     (case sleep_reply fe of
                        Raises e \<Rightarrow> ([Write buffer, Flush], Inl e)
                      | Returns _ \<Rightarrow> ([Write buffer, Flush, Sleep], Inr (tick s)))))))"

text \<open>
  The loop runs for as long as the environment is described: when the list of frames is
  used up the loop is still running, in the state reached.
\<close>

datatype outcome = Running anim_state | Raised exn

fun loop :: "anim_state \<Rightarrow> frame_env list \<Rightarrow> event list \<times> outcome" where
  "loop s [] = ([], Running s)"
| "loop s (fe # fes) =
     (case frame s fe of
        (evs, Inl e) \<Rightarrow> (evs, Raised e)
      | (evs, Inr s') \<Rightarrow> (case loop s' fes of (evs', r) \<Rightarrow> (evs @ evs', r)))"






section \<open>Runs used to state the properties of the loop\<close>

text \<open>
  A frame completes when none of its calls raises, the size query apart, which may raise
  the OSError that the inner \<open>try\<close> handles.
\<close>

definition completes :: "frame_env \<Rightarrow> bool" where
  "completes fe \<longleftrightarrow>
     (case size_query fe of Returns _ \<Rightarrow> True | Raises e \<Rightarrow> e = OSError)
     \<and> write_reply fe = Returns () \<and> flush_reply fe = Returns ()
     \<and> sleep_reply fe = Returns ()"



text \<open>Concrete runs: frames on terminals of several sizes and without a terminal.\<close>

definition frame_ok :: "(int \<times> int) reply \<Rightarrow> frame_env" where
  "frame_ok r = \<lparr>size_query = r, write_reply = Returns (), flush_reply = Returns (),
                 sleep_reply = Returns ()\<rparr>"

definition seven_frames :: "frame_env list" where
  "seven_frames =
     [frame_ok (Returns (80, 24)), frame_ok (Raises OSError), frame_ok (Returns (120, 40)),
      frame_ok (Returns (10, 3)), frame_ok (Returns (0, 0)), frame_ok (Returns (1000, 50)),
      frame_ok (Raises OSError)]"



section \<open>Observations on a frame\<close>

text \<open>The text after the last line feed of a buffer: the line on which the cursor ends.\<close>

definition last_line :: "pystr \<Rightarrow> pystr" where
  "last_line buf = rev (takeWhile (\<lambda>c. c \<noteq> 10) (rev buf))"

text \<open>The number of line feeds that follow the cursor-home sequence at once.\<close>

definition blank_lines_after_home :: "pystr \<Rightarrow> nat" where
  "blank_lines_after_home buf =
     length (takeWhile (\<lambda>c. c = 10) (drop (length cursor_home) buf))"

section \<open>Values of the setup\<close>

lemma colors_simps:
  "the (colors ''reset'') = [27, 91, 48, 109]"
  "the (colors ''bold'') = [27, 91, 49, 109]"
  "the (colors ''red'') = [27, 91, 57, 49, 109]"
  "the (colors ''green'') = [27, 91, 57, 50, 109]"
  "the (colors ''yellow'') = [27, 91, 57, 51, 109]"
  "the (colors ''magenta'') = [27, 91, 57, 53, 109]"
  "the (colors ''cyan'') = [27, 91, 57, 54, 109]"
  by (simp_all add: colors_def esc_def str_def)

lemma length_color_cycle: "length color_cycle = 5"
  by (simp add: color_cycle_def)

lemma length_scrolltext: "length scrolltext = 486"
  by (simp add: scrolltext_def str_mul_def str_def eval_nat_numeral)

lemma logo_height_eq: "logo_height = 6"
  by (simp add: logo_height_def logo_def)

lemma logo_width_eq: "logo_width = 43"
  by (simp add: logo_width_def logo_def)

section \<open>Python operations\<close>

lemma fold_append_concat: "fold (\<lambda>i b. b @ f i) xs b = b @ concat (map f xs)"
  by (induction xs arbitrary: b) simp_all

lemma str_mul_newline: "str_mul newline n = replicate (nat n) 10"
  unfolding str_mul_def newline_def by (induction "nat n") simp_all

lemma str_mul_space: "str_mul (str '' '') n = replicate (nat n) 32"
  unfolding str_mul_def str_def by (induction "nat n") simp_all

lemma slice_nonneg:
  "0 \<le> a \<Longrightarrow> 0 \<le> b \<Longrightarrow>
   py_slice xs (Some a) (Some b) = take (nat (b - a)) (drop (nat a) xs)"
  by (auto simp: py_slice_def adjust_index_def Let_def)

lemma slice_prefix: "0 \<le> w \<Longrightarrow> py_slice xs None (Some w) = take (nat w) xs"
  by (auto simp: py_slice_def adjust_index_def Let_def)

lemma length_slice_le:
  "0 \<le> w \<Longrightarrow> length (py_slice xs (Some a) (Some (a + w))) \<le> nat w"
  by (auto simp: py_slice_def adjust_index_def Let_def)

lemma set_py_slice: "set (py_slice xs a b) \<subseteq> set xs"
  unfolding py_slice_def Let_def
  by (meson set_take_subset set_drop_subset subset_trans)

lemma length_ljust: "0 \<le> w \<Longrightarrow> length s \<le> nat w \<Longrightarrow> int (length (ljust s w)) = w"
  by (simp add: ljust_def)

lemma nth_take_drop:
  "j < W \<Longrightarrow> off \<le> length xs \<Longrightarrow> take W (drop off xs) ! j = xs ! (off + j)"
  by simp

text \<open>
  Reading \<open>W\<close> characters at \<open>off\<close> from a text followed by its own prefix of length
  \<open>W\<close> is a circular read of the text, as long as the prefix reaches far enough.
\<close>

lemma circular_nth:
  fixes t :: "'a list"
  assumes "off < length t" "j < W" "W \<le> length t \<or> off + W \<le> 2 * length t"
  shows "j < length (take W (drop off (t @ take W t)))"
    and "take W (drop off (t @ take W t)) ! j = t ! ((off + j) mod length t)"
proof -
  show "j < length (take W (drop off (t @ take W t)))"
    using assms by auto
  have nth: "take W (drop off (t @ take W t)) ! j = (t @ take W t) ! (off + j)"
    using assms by (intro nth_take_drop) simp_all
  show "take W (drop off (t @ take W t)) ! j = t ! ((off + j) mod length t)"
  proof (cases "off + j < length t")
    case True
    then show ?thesis unfolding nth by (simp add: nth_append)
  next
    case False
    have lt: "off + j - length t < length t" using assms by linarith
    have "(off + j) mod length t = (off + j - length t) mod length t"
      using False by (simp add: le_mod_geq)
    also have "\<dots> = off + j - length t" using lt by (rule mod_less)
    finally have m: "(off + j) mod length t = off + j - length t" .
    have "off + j - length t < W" using assms by linarith
    then show ?thesis unfolding nth m using False by (simp add: nth_append)
  qed
qed

lemma tail_head:
  fixes t :: "'a list"
  assumes "k \<le> length t" "k \<le> W"
  shows "take W (drop (length t - k) (t @ take W t)) = drop (length t - k) t @ take (W - k) t"
  using assms by (simp add: min_def)

section \<open>The scroller window\<close>

lemma scroller_view_eq:
  assumes "0 \<le> W" "0 \<le> off"
  shows "scroller_view W off
         = take (nat W) (drop (nat off) (scrolltext @ take (nat W) scrolltext))"
  using assms by (simp add: scroller_view_def slice_nonneg slice_prefix)

lemma length_scroller_view_le: "0 \<le> W \<Longrightarrow> length (scroller_view W off) \<le> nat W"
  unfolding scroller_view_def by (rule length_slice_le)

section \<open>The rendered frame\<close>

lemma newline_notin_scrolltext: "10 \<notin> set scrolltext"
  by (simp add: scrolltext_def str_mul_def str_def eval_nat_numeral)

lemma newline_notin_scroller_view: "10 \<notin> set (scroller_view W off)"
proof -
  have "set (scroller_view W off) \<subseteq> set scrolltext"
    unfolding scroller_view_def
    using set_py_slice[of "scrolltext @ py_slice scrolltext None (Some W)"]
      set_py_slice[of scrolltext None "Some W"] by auto
  then show ?thesis using newline_notin_scrolltext by blast
qed

lemma color_cycle_simps: "color_cycle =
   [[27, 91, 57, 54, 109], [27, 91, 57, 53, 109], [27, 91, 57, 51, 109],
    [27, 91, 57, 50, 109], [27, 91, 57, 49, 109]]"
  by (simp add: color_cycle_def colors_simps)

lemma py_index_color_cycle:
  "0 \<le> ci \<Longrightarrow> ci < 5 \<Longrightarrow> py_index color_cycle ci = Inr (color_cycle ! nat ci)"
  by (simp add: py_index_def length_color_cycle)

lemma color_cycle_nth_esc:
  assumes "0 \<le> ci" "ci < 5"
  shows "\<exists>cs. color_cycle ! nat ci = 27 # cs \<and> 10 \<notin> set cs"
proof -
  have "nat ci \<in> {0, 1, 2, 3, 4}" using assms by auto
  then show ?thesis by (auto simp: color_cycle_simps)
qed

lemma upt_logo_height: "[0..<nat logo_height] = [0, 1, 2, 3, 4, 5]"
  by (simp add: logo_height_eq upt_rec)

lemma render_frame_decomp:
  assumes "0 \<le> ci" "ci < 5"
  shows "render_frame (W, H) ci sp =
    Inr (cursor_home @ replicate (nat (top_padding H)) 10
         @ concat (map (\<lambda>i. left_padding_str W @ color_cycle ! nat ci @ logo ! i
                              @ the (colors ''reset'') @ newline) [0..<nat logo_height])
         @ replicate (nat (fill_lines H)) 10
         @ the (colors ''bold'') @ the (colors ''yellow'')
         @ ljust (scroller_view W sp) W @ the (colors ''reset''))"
  using assms
  by (simp add: Let_def py_index_color_cycle fold_append_concat str_mul_newline del: upt_Suc)

declare render_frame.simps [simp del]

lemma last_line_append:
  assumes "X \<noteq> []" "last X = 10" "10 \<notin> set T"
  shows "last_line (X @ T) = T"
proof -
  obtain Y where X: "X = Y @ [10]"
    using assms(1,2) by (metis append_butlast_last_id)
  have "takeWhile (\<lambda>c. c \<noteq> 10) (rev T @ 10 # rev Y)
        = rev T @ takeWhile (\<lambda>c. c \<noteq> 10) (10 # rev Y)"
    by (rule takeWhile_append2) (use assms(3) in auto)
  then have "takeWhile (\<lambda>c. c \<noteq> 10) (rev T @ 10 # rev Y) = rev T"
    by simp
  then show ?thesis by (simp add: last_line_def X)
qed

text \<open>
  Claim C3. For every viewport width \<open>W \<ge> 0\<close> (and a colour index of the cycle) the frame
  is produced, and its last line, the scroller line, is the bold and yellow codes, a text
  of exactly \<open>W\<close> characters and the reset code. That text is the extracted window, never
  longer than \<open>W\<close>, padded on the right with spaces.
\<close>

theorem scroller_line_width:
  assumes "0 \<le> W" "0 \<le> ci" "ci < 5"
  shows "\<exists>buf. render_frame (W, H) ci sp = Inr buf
           \<and> last_line buf = the (colors ''bold'') @ the (colors ''yellow'')
                 @ ljust (scroller_view W sp) W @ the (colors ''reset'')
           \<and> int (length (ljust (scroller_view W sp) W)) = W
           \<and> length (scroller_view W sp) \<le> nat W
           \<and> ljust (scroller_view W sp) W
               = scroller_view W sp @ replicate (nat W - length (scroller_view W sp)) 32"
proof -
  let ?X = "cursor_home @ replicate (nat (top_padding H)) 10
         @ concat (map (\<lambda>i. left_padding_str W @ color_cycle ! nat ci @ logo ! i
                              @ the (colors ''reset'') @ newline) [0..<nat logo_height])
         @ replicate (nat (fill_lines H)) 10"
  let ?T = "the (colors ''bold'') @ the (colors ''yellow'')
         @ ljust (scroller_view W sp) W @ the (colors ''reset'')"
  have r: "render_frame (W, H) ci sp = Inr (?X @ ?T)"
    using render_frame_decomp[OF assms(2,3)] by simp
  have X1: "?X \<noteq> []" by (simp add: cursor_home_def esc_def)
  have X2: "last ?X = 10" by (simp add: upt_logo_height newline_def)
  have T: "10 \<notin> set ?T"
    using newline_notin_scroller_view[of W sp] by (simp add: colors_simps ljust_def)
  have len: "length (scroller_view W sp) \<le> nat W"
    using assms(1) by (rule length_scroller_view_le)
  have l1: "last_line (?X @ ?T) = ?T" using X1 X2 T by (rule last_line_append)
  have l2: "int (length (ljust (scroller_view W sp) W)) = W"
    using assms(1) len by (rule length_ljust)
  have l3: "ljust (scroller_view W sp) W
               = scroller_view W sp @ replicate (nat W - length (scroller_view W sp)) 32"
    using assms(1) by (simp add: ljust_def nat_diff_distrib)
  show ?thesis using r l1 l2 l3 len by blast
qed

theorem scroller_line_width_witness:
  "\<exists>buf. render_frame (80, 24) 0 0 = Inr buf
           \<and> last_line buf = the (colors ''bold'') @ the (colors ''yellow'')
                 @ ljust (scroller_view 80 0) 80 @ the (colors ''reset'')
           \<and> int (length (ljust (scroller_view 80 0) 80)) = 80
           \<and> length (scroller_view 80 0) \<le> nat 80
           \<and> ljust (scroller_view 80 0) 80
               = scroller_view 80 0 @ replicate (nat 80 - length (scroller_view 80 0)) 32"
  using scroller_line_width[of 80 0 24 0] by simp

lemma left_padding_str_eq:
  "left_padding_str W = replicate (nat ((W - logo_width) div 2)) 32"
  by (simp add: left_padding_str_def str_mul_space)

lemma takeWhile_replicate_append:
  "x \<noteq> a \<Longrightarrow> takeWhile (\<lambda>c. c = a) (replicate n a @ x # xs) = replicate n a"
  by (induction n) simp_all

text \<open>
  Claim C4. For every viewport height \<open>H\<close> the frame starts with the cursor-home sequence,
  and the number of line feeds that follow it before the first logo line is
  \<open>(H - logo_height - 2) div 2\<close> when that is positive and zero otherwise; the frame is
  produced in both cases.
\<close>

theorem top_padding_lines:
  assumes "0 \<le> ci" "ci < 5"
  shows "\<exists>buf. render_frame (W, H) ci sp = Inr buf
           \<and> take (length cursor_home) buf = cursor_home
           \<and> int (blank_lines_after_home buf)
               = (if 0 < (H - logo_height - 2) div 2 then (H - logo_height - 2) div 2 else 0)"
proof -
  obtain cs where c: "color_cycle ! nat ci = 27 # cs"
    using color_cycle_nth_esc[OF assms] by blast
  let ?n = "nat (top_padding H)"
  let ?post = "concat (map (\<lambda>i. left_padding_str W @ color_cycle ! nat ci @ logo ! i
                              @ the (colors ''reset'') @ newline) [0..<nat logo_height])
         @ replicate (nat (fill_lines H)) 10
         @ the (colors ''bold'') @ the (colors ''yellow'')
         @ ljust (scroller_view W sp) W @ the (colors ''reset'')"
  have r: "render_frame (W, H) ci sp = Inr (cursor_home @ replicate ?n 10 @ ?post)"
    using render_frame_decomp[OF assms] by simp
  have "\<exists>x xs. ?post = x # xs \<and> x \<noteq> 10"
  proof (cases "left_padding_str W")
    case Nil
    then show ?thesis by (simp add: upt_logo_height c)
  next
    case (Cons y ys)
    then have "y = 32"
      by (metis left_padding_str_eq list.set_intros(1) in_set_replicate)
    then show ?thesis using Cons by (simp add: upt_logo_height)
  qed
  then obtain x xs where p: "?post = x # xs" "x \<noteq> 10" by blast
  have "blank_lines_after_home (cursor_home @ replicate ?n 10 @ ?post) = ?n"
    unfolding blank_lines_after_home_def p(1)
    using p(2) by (simp add: takeWhile_replicate_append)
  moreover have "int ?n = (if 0 < (H - logo_height - 2) div 2 then (H - logo_height - 2) div 2 else 0)"
    by (simp add: top_padding_def)
  ultimately show ?thesis using r by simp
qed

theorem top_padding_lines_witness:
  "(\<exists>buf. render_frame (80, 24) 0 0 = Inr buf
           \<and> take (length cursor_home) buf = cursor_home
           \<and> int (blank_lines_after_home buf) = 8)
   \<and> (\<exists>buf. render_frame (80, 5) 0 0 = Inr buf
           \<and> take (length cursor_home) buf = cursor_home
           \<and> int (blank_lines_after_home buf) = 0)"
  using top_padding_lines[of 0 80 24 0] top_padding_lines[of 0 80 5 0]
  by (simp add: logo_height_eq)

text \<open>
  Claim C5 as stated fails for a width below the logo width: at \<open>W = 10\<close> the quotient
  is \<open>-17\<close>, and the padding string is empty.
\<close>

theorem left_padding_negative_count:
  "int (length (left_padding_str 10)) \<noteq> (10 - logo_width) div 2
   \<and> left_padding_str 10 = [] \<and> (10 - logo_width) div 2 = - 17"
  by (simp add: left_padding_str_eq logo_width_eq)

text \<open>
  Claim C5, amended. For every viewport width \<open>W\<close>, each of the logo's lines in the frame
  is the same string of \<open>max 0 ((W - logo_width) div 2)\<close> spaces, followed by the colour
  code (which starts with the escape character, not with a space), the logo line, the
  reset code and a line feed.
\<close>

theorem logo_lines_left_padding:
  assumes "0 \<le> ci" "ci < 5"
  shows "\<exists>cs. color_cycle ! nat ci = 27 # cs \<and>
     render_frame (W, H) ci sp =
       Inr (cursor_home @ replicate (nat (top_padding H)) 10
         @ concat (map (\<lambda>i. replicate (nat ((W - logo_width) div 2)) 32
                              @ color_cycle ! nat ci @ logo ! i
                              @ the (colors ''reset'') @ newline) [0..<nat logo_height])
         @ replicate (nat (fill_lines H)) 10
         @ the (colors ''bold'') @ the (colors ''yellow'')
         @ ljust (scroller_view W sp) W @ the (colors ''reset''))"
  using render_frame_decomp[OF assms, of W H sp] color_cycle_nth_esc[OF assms]
  by (auto simp: left_padding_str_eq)

theorem logo_lines_left_padding_witness:
  "\<exists>cs. color_cycle ! nat 0 = 27 # cs \<and>
     render_frame (80, 24) 0 0 =
       Inr (cursor_home @ replicate (nat (top_padding 24)) 10
         @ concat (map (\<lambda>i. replicate 18 32
                              @ color_cycle ! nat 0 @ logo ! i
                              @ the (colors ''reset'') @ newline) [0..<nat logo_height])
         @ replicate (nat (fill_lines 24)) 10
         @ the (colors ''bold'') @ the (colors ''yellow'')
         @ ljust (scroller_view 80 0) 80 @ the (colors ''reset''))"
  using logo_lines_left_padding[of 0 80 24 0] by (simp add: logo_width_eq)

text \<open>
  Claim C10. For every viewport width below the logo width the left-padding string is
  empty, the frame is produced, and each logo line in it starts with the colour code.
\<close>

theorem narrow_terminal_no_left_padding:
  assumes "W < logo_width" "0 \<le> ci" "ci < 5"
  shows "left_padding_str W = [] \<and>
     render_frame (W, H) ci sp =
       Inr (cursor_home @ replicate (nat (top_padding H)) 10
         @ concat (map (\<lambda>i. color_cycle ! nat ci @ logo ! i
                              @ the (colors ''reset'') @ newline) [0..<nat logo_height])
         @ replicate (nat (fill_lines H)) 10
         @ the (colors ''bold'') @ the (colors ''yellow'')
         @ ljust (scroller_view W sp) W @ the (colors ''reset''))"
proof -
  have "(W - logo_width) div 2 < 0" using assms(1) by simp
  then have e: "left_padding_str W = []" by (simp add: left_padding_str_eq)
  show ?thesis using render_frame_decomp[OF assms(2,3), of W H sp] by (simp add: e)
qed

theorem narrow_terminal_no_left_padding_witness:
  "(10::int) < logo_width \<and> left_padding_str 10 = [] \<and>
     render_frame (10, 24) 0 0 =
       Inr (cursor_home @ replicate (nat (top_padding 24)) 10
         @ concat (map (\<lambda>i. color_cycle ! nat 0 @ logo ! i
                              @ the (colors ''reset'') @ newline) [0..<nat logo_height])
         @ replicate (nat (fill_lines 24)) 10
         @ the (colors ''bold'') @ the (colors ''yellow'')
         @ ljust (scroller_view 10 0) 10 @ the (colors ''reset''))"
  using narrow_terminal_no_left_padding[of 10 0 24 0] by (simp add: logo_width_eq)

text \<open>Claim C7 as stated fails: the logo of the program is not 44 characters wide.\<close>

theorem logo_width_is_not_44: "\<not> (logo_height = 6 \<and> logo_width = 44)"
  by (simp add: logo_width_eq)

text \<open>
  Claim C7, amended. The logo has height 6 and width 43 (each of its lines has 43
  characters); for the viewport (80, 24) the top padding is 8 and the number of fill
  lines is 9, and the first frame for that viewport has 8 line feeds before the logo and
  9 after it.
\<close>

theorem logo_and_default_viewport:
  "logo_height = 6 \<and> logo_width = 43 \<and> map length logo = [43, 43, 43, 43, 43, 43]
   \<and> top_padding 24 = 8 \<and> fill_lines 24 = 9
   \<and> render_frame (80, 24) 0 0 =
       Inr (cursor_home @ str_mul newline 8
         @ concat (map (\<lambda>i. left_padding_str 80 @ color_cycle ! 0 @ logo ! i
                              @ the (colors ''reset'') @ newline) [0..<6])
         @ str_mul newline 9
         @ the (colors ''bold'') @ the (colors ''yellow'')
         @ ljust (scroller_view 80 0) 80 @ the (colors ''reset''))"
proof -
  have t: "top_padding 24 = 8" by (simp add: top_padding_def logo_height_eq)
  have f: "fill_lines 24 = 9" by (simp add: fill_lines_def t logo_height_eq)
  have l: "map length logo = [43, 43, 43, 43, 43, 43]" by (simp add: logo_def)
  have r: "render_frame (80, 24) 0 0 =
       Inr (cursor_home @ str_mul newline 8
         @ concat (map (\<lambda>i. left_padding_str 80 @ color_cycle ! 0 @ logo ! i
                              @ the (colors ''reset'') @ newline) [0..<6])
         @ str_mul newline 9
         @ the (colors ''bold'') @ the (colors ''yellow'')
         @ ljust (scroller_view 80 0) 80 @ the (colors ''reset''))"
    using render_frame_decomp[of 0 80 24 0] by (simp add: t f str_mul_newline logo_height_eq)
  show ?thesis using t f l r logo_height_eq logo_width_eq by blast
qed

section \<open>The scroller window as a circular read\<close>

text \<open>
  For an offset inside the text and a width up to the length of the text (or, more
  generally, a window that ends inside the doubled text), every character of the window
  exists and is the circular read of the scroll text.
\<close>

lemma scroller_view_circular_read:
  assumes "0 \<le> off" "off < int (length scrolltext)" "int j < W"
    and "W \<le> int (length scrolltext) \<or> off + W \<le> 2 * int (length scrolltext)"
  shows "j < length (scroller_view W off)
         \<and> scroller_view W off ! j = scrolltext ! (nat (off + int j) mod length scrolltext)"
proof -
  have W: "0 \<le> W" using assms(3) by linarith
  have a: "nat off < length scrolltext" "j < nat W" using assms by linarith+
  have b: "nat W \<le> length scrolltext \<or> nat off + nat W \<le> 2 * length scrolltext"
    using assms W by linarith
  have c: "nat (off + int j) = nat off + j" using assms(1) by linarith
  show ?thesis
    unfolding scroller_view_eq[OF W assms(1)] c
    using circular_nth[OF a b] by simp
qed

text \<open>
  Claim C2 at a terminal of 1000 columns, offset 0. The scroll text has 486 characters,
  so the text followed by its prefix of length 1000 is the text twice: the window has 972
  characters and no character 975. On the padded scroller line character 975 is a
  space, where the circular read gives the asterisk at index 3 of the text.
\<close>

theorem scroller_view_wide_terminal:
  "length (scroller_view 1000 0) = 972
   \<and> \<not> (975 < length (scroller_view 1000 0)
          \<and> scroller_view 1000 0 ! 975 = scrolltext ! (nat (0 + 975) mod length scrolltext))
   \<and> ljust (scroller_view 1000 0) 1000 ! 975 = 32
   \<and> scrolltext ! (nat (0 + 975) mod length scrolltext) = 42"
proof -
  have v: "scroller_view 1000 0 = scrolltext @ scrolltext"
    by (simp add: scroller_view_eq length_scrolltext)
  have l: "length (scroller_view 1000 0) = 972"
    by (simp add: v length_scrolltext)
  have p: "ljust (scroller_view 1000 0) 1000 ! 975 = 32"
    by (simp add: ljust_def l nth_append)
  have "scrolltext ! 3 = 42"
    by (simp add: scrolltext_def str_mul_def str_def eval_nat_numeral)
  then have t: "scrolltext ! (nat (0 + 975) mod length scrolltext) = 42"
    by (simp add: length_scrolltext)
  show ?thesis using l p t by simp
qed

text \<open>
  Claim C6 as stated fails for a width below \<open>k\<close>: with \<open>k = 10\<close> and \<open>W = 5\<close> the
  window has at most 5 characters, while the tail of 10 characters followed by a head of
  \<open>W - k\<close> (no) characters has 10.
\<close>

theorem tail_window_narrower_than_k:
  "scroller_view 5 (int (length scrolltext) - 10)
     \<noteq> drop (length scrolltext - 10) scrolltext @ take (nat (5 - 10)) scrolltext"
proof
  assume "scroller_view 5 (int (length scrolltext) - 10)
     = drop (length scrolltext - 10) scrolltext @ take (nat (5 - 10)) scrolltext"
  then have "length (scroller_view 5 (int (length scrolltext) - 10)) = 10"
    by (simp add: length_scrolltext)
  moreover have "length (scroller_view 5 (int (length scrolltext) - 10)) \<le> nat 5"
    by (rule length_scroller_view_le) simp
  ultimately show False by simp
qed

text \<open>
  Claim C6, amended. For every \<open>k\<close> in \<open>(0, length]\<close> and every width \<open>W\<close> with
  \<open>k \<le> W \<le> k + length\<close>, the window at offset \<open>length - k\<close> is the last \<open>k\<close>
  characters of the scroll text followed by its first \<open>W - k\<close> characters.
\<close>

theorem scroller_view_tail_head:
  assumes "0 < k" "k \<le> length scrolltext" "k \<le> W" "W \<le> k + length scrolltext"
  shows "scroller_view (int W) (int (length scrolltext) - int k)
         = drop (length scrolltext - k) scrolltext @ take (W - k) scrolltext"
proof -
  have o: "0 \<le> int (length scrolltext) - int k" using assms(2) by simp
  have n: "nat (int (length scrolltext) - int k) = length scrolltext - k" by simp
  have "scroller_view (int W) (int (length scrolltext) - int k)
        = take W (drop (length scrolltext - k) (scrolltext @ take W scrolltext))"
    using scroller_view_eq[OF _ o, of "int W"] by (simp add: n)
  then show ?thesis using tail_head[OF assms(2,3)] by simp
qed

theorem scroller_view_tail_head_witness:
  "(0::nat) < 10 \<and> 10 \<le> length scrolltext \<and> (10::nat) \<le> 20 \<and> 20 \<le> 10 + length scrolltext
   \<and> scroller_view 20 476 = drop 476 scrolltext @ take 10 scrolltext"
  using scroller_view_tail_head[of 10 20] by (simp add: length_scrolltext)

section \<open>The counters\<close>

lemma tick_color_index: "0 \<le> color_index (tick s) \<and> color_index (tick s) < 5"
  by (simp add: tick_def length_color_cycle)

lemma tick_scroll_pos: "0 \<le> scroll_pos (tick s) \<and> scroll_pos (tick s) < int (length scrolltext)"
  by (simp add: tick_def length_scrolltext)

lemma get_size_completes: "completes fe \<Longrightarrow> \<exists>sz. get_size (size_query fe) = Inr sz"
  by (auto simp: completes_def get_size_def split: reply.splits)

lemma frame_completes:
  assumes "completes fe" "0 \<le> color_index s" "color_index s < 5"
  shows "\<exists>evs. frame s fe = (evs, Inr (tick s))"
proof -
  obtain sz where sz: "get_size (size_query fe) = Inr sz"
    using get_size_completes[OF assms(1)] by blast
  obtain W H where "sz = (W, H)" by (cases sz)
  then obtain buf where "render_frame sz (color_index s) (scroll_pos s) = Inr buf"
    using render_frame_decomp[OF assms(2,3)] by blast
  then show ?thesis using assms(1) sz by (simp add: frame_def completes_def)
qed

lemma loop_completes:
  assumes "list_all completes fes" "0 \<le> color_index s" "color_index s < 5"
  shows "snd (loop s fes) = Running ((tick ^^ length fes) s)"
  using assms
proof (induction fes arbitrary: s)
  case Nil
  then show ?case by simp
next
  case (Cons fe fes)
  have "completes fe" using Cons.prems(1) by simp
  then obtain evs where f: "frame s fe = (evs, Inr (tick s))"
    using frame_completes Cons.prems(2,3) by blast
  have "snd (loop (tick s) fes) = Running ((tick ^^ length fes) (tick s))"
    using Cons.IH[of "tick s"] Cons.prems(1) tick_color_index[of s] by simp
  then show ?case by (auto simp: f funpow_swap1 split: prod.splits)
qed

lemma mod_succ: "(a mod m + 1) mod m = (1 + a) mod (m::int)"
  by (metis add.commute mod_add_left_eq)

lemma tick_funpow_init:
  "(tick ^^ N) init_state
   = \<lparr>color_index = int N mod 5, scroll_pos = int N mod int (length scrolltext)\<rparr>"
proof (induction N)
  case 0
  then show ?case by (simp add: init_state_def)
next
  case (Suc N)
  have "(tick ^^ Suc N) init_state = tick ((tick ^^ N) init_state)"
    by simp
  also have "\<dots> = tick \<lparr>color_index = int N mod 5,
                         scroll_pos = int N mod int (length scrolltext)\<rparr>"
    by (simp only: Suc)
  also have "\<dots> = \<lparr>color_index = int (Suc N) mod 5,
                     scroll_pos = int (Suc N) mod int (length scrolltext)\<rparr>"
    by (simp add: tick_def length_color_cycle mod_succ)
  finally show ?case .
qed

text \<open>
  Claim C1. From scroll offset 0 and palette index 0, after \<open>N\<close> frames that complete
  (on terminals of any size, or without a terminal) the loop is running with palette
  index \<open>N mod 5\<close> and scroll offset \<open>N mod length scrolltext\<close>, which is \<open>N\<close> state
  updates applied to the initial state; the palette has 5 colours, and both counters lie
  in \<open>[0, modulus)\<close>.
\<close>

theorem counters_after_ticks:
  assumes "list_all completes fes"
  shows "snd (loop init_state fes)
           = Running \<lparr>color_index = int (length fes) mod int (length color_cycle),
                      scroll_pos = int (length fes) mod int (length scrolltext)\<rparr>
         \<and> (tick ^^ length fes) init_state
           = \<lparr>color_index = int (length fes) mod int (length color_cycle),
              scroll_pos = int (length fes) mod int (length scrolltext)\<rparr>
         \<and> length color_cycle = 5
         \<and> 0 \<le> int (length fes) mod int (length color_cycle)
         \<and> int (length fes) mod int (length color_cycle) < int (length color_cycle)
         \<and> 0 \<le> int (length fes) mod int (length scrolltext)
         \<and> int (length fes) mod int (length scrolltext) < int (length scrolltext)"
proof -
  have "snd (loop init_state fes) = Running ((tick ^^ length fes) init_state)"
    using assms by (rule loop_completes) (simp_all add: init_state_def)
  then show ?thesis
    by (simp add: tick_funpow_init length_color_cycle length_scrolltext)
qed

theorem counters_after_ticks_witness:
  "list_all completes seven_frames
   \<and> snd (loop init_state seven_frames) = Running \<lparr>color_index = 2, scroll_pos = 7\<rparr>"
proof -
  have c: "list_all completes seven_frames"
    by (simp add: seven_frames_def frame_ok_def completes_def)
  have l: "length seven_frames = 7" by (simp add: seven_frames_def)
  show ?thesis
    using counters_after_ticks[OF c] c
    by (simp add: l length_color_cycle length_scrolltext)
qed

section \<open>The events of the loop\<close>










section \<open>The size query\<close>

text \<open>
  Claim C9. A frame whose size query raises OSError behaves as the frame whose query
  returns (80, 24), and so does the loop from there on. When the other calls of the
  frame return, its events are the write of the frame rendered for (80, 24), the flush
  and the sleep, and nothing else; it ends in the next state, not in an exception. Any
  other exception of the size query is not handled there.
\<close>

theorem size_query_failure_recovered:
  assumes "size_query fe = Raises OSError"
  shows "frame s fe = frame s (fe\<lparr>size_query := Returns (80, 24)\<rparr>)
         \<and> loop s (fe # fes) = loop s (fe\<lparr>size_query := Returns (80, 24)\<rparr> # fes)
         \<and> (0 \<le> color_index s \<and> color_index s < 5 \<and> write_reply fe = Returns ()
              \<and> flush_reply fe = Returns () \<and> sleep_reply fe = Returns () \<longrightarrow>
             (\<exists>buffer. render_frame (80, 24) (color_index s) (scroll_pos s) = Inr buffer
                \<and> frame s fe = ([Write buffer, Flush, Sleep], Inr (tick s))))
         \<and> get_size (Raises KeyboardInterrupt) = Inl KeyboardInterrupt
         \<and> get_size (Raises IndexError) = Inl IndexError
         \<and> get_size (Raises OtherException) = Inl OtherException"
proof -
  have f: "frame s fe = frame s (fe\<lparr>size_query := Returns (80, 24)\<rparr>)"
    using assms by (auto simp: frame_def get_size_def split: sum.splits reply.splits)
  have l: "loop s (fe # fes) = loop s (fe\<lparr>size_query := Returns (80, 24)\<rparr> # fes)"
    by (simp add: f)
  have c: "\<exists>buffer. render_frame (80, 24) (color_index s) (scroll_pos s) = Inr buffer
                \<and> frame s fe = ([Write buffer, Flush, Sleep], Inr (tick s))"
    if "0 \<le> color_index s" "color_index s < 5" "write_reply fe = Returns ()"
      "flush_reply fe = Returns ()" "sleep_reply fe = Returns ()"
    using that assms by (simp add: frame_def get_size_def render_frame_decomp)
  have g: "get_size (Raises KeyboardInterrupt) = Inl KeyboardInterrupt"
    "get_size (Raises IndexError) = Inl IndexError"
    "get_size (Raises OtherException) = Inl OtherException"
    by (simp_all add: get_size_def)
  show ?thesis using f l c g by blast
qed

theorem size_query_failure_recovered_witness:
  "size_query (frame_ok (Raises OSError)) = Raises OSError
   \<and> frame init_state (frame_ok (Raises OSError))
       = frame init_state (frame_ok (Returns (80, 24)))
   \<and> (\<exists>buffer. render_frame (80, 24) 0 0 = Inr buffer
         \<and> frame init_state (frame_ok (Raises OSError))
             = ([Write buffer, Flush, Sleep], Inr \<lparr>color_index = 1, scroll_pos = 1\<rparr>))"
proof -
  have a: "size_query (frame_ok (Raises OSError)) = Raises OSError"
    by (simp add: frame_ok_def)
  have b: "(frame_ok (Raises OSError))\<lparr>size_query := Returns (80, 24)\<rparr>
           = frame_ok (Returns (80, 24))"
    by (simp add: frame_ok_def)
  have t: "tick init_state = \<lparr>color_index = 1, scroll_pos = 1\<rparr>"
    by (simp add: tick_def init_state_def length_color_cycle length_scrolltext)
  have i: "color_index init_state = 0" "scroll_pos init_state = 0"
    by (simp_all add: init_state_def)
  have r: "write_reply (frame_ok (Raises OSError)) = Returns ()"
    "flush_reply (frame_ok (Raises OSError)) = Returns ()"
    "sleep_reply (frame_ok (Raises OSError)) = Returns ()"
    by (simp_all add: frame_ok_def)
  show ?thesis
    using size_query_failure_recovered[OF a, of init_state "[]"] a
    by (auto simp: b t i r)
qed

end
